theory Spec2Isabelle
  imports Complex_Main "HOL-Library.Sublist" "HOL-Library.AList"
begin

section \<open>JSON values and Python exceptions\<close>

text \<open>
  Catalogs, datasets and distributions are parsed JSON documents. A Python \<open>dict\<close> is an
  association list (keys are taken to be unique, \<open>map_of\<close> reads it), a Python \<open>list\<close> is
  a list, \<open>None\<close> is \<open>JNull\<close>. Values are compared structurally.
\<close>

datatype json =
    JNull
  | JBool bool
  | JNum int
  | JStr string
  | JList "json list"
  | JDict "(string \<times> json) list"

type_synonym dict = "(string \<times> json) list"

datatype py_error = KeyError | TypeError | AttributeError | ZeroDivisionError | IndexError

text \<open>\<open>d.get(k)\<close>: only a mapping has the method; a missing key gives \<open>None\<close>.\<close>

definition py_get :: "json \<Rightarrow> string \<Rightarrow> py_error + json" where
  "py_get d k =
     (case d of
        JDict m \<Rightarrow> Inr (case map_of m k of Some v \<Rightarrow> v | None \<Rightarrow> JNull)
      | _ \<Rightarrow> Inl AttributeError)"

text \<open>The elements Python iterates over (and counts with \<open>len\<close>) for a value.\<close>

definition py_seq :: "json \<Rightarrow> py_error + json list" where
  "py_seq v =
     (case v of
        JList xs \<Rightarrow> Inr xs
      | JStr s \<Rightarrow> Inr (map (\<lambda>c. JStr [c]) s)
      | JDict m \<Rightarrow> Inr (map (\<lambda>kv. JStr (fst kv)) m)
      | _ \<Rightarrow> Inl TypeError)"

text \<open>
  Python truthiness of a value: \<open>None\<close>, \<open>False\<close>, \<open>0\<close>, the empty string, list and
  mapping are false.
\<close>

definition truthy :: "json \<Rightarrow> bool" where
  "truthy v =
     (case v of
        JNull \<Rightarrow> False
      | JBool b \<Rightarrow> b
      | JNum n \<Rightarrow> n \<noteq> 0
      | JStr s \<Rightarrow> s \<noteq> []
      | JList xs \<Rightarrow> xs \<noteq> []
      | JDict m \<Rightarrow> m \<noteq> [])"

section \<open>Dataset Matcher (\<open>datasets_equal\<close>, indicators.py)\<close>

text \<open>
  A field to compare is either a plain key (a Python string) or a nested path (a Python
  list of keys and list indices).
\<close>

datatype seg = Key string | Idx int

datatype field = Plain string | Path "seg list"

text \<open>
  Modelled from the spec: \<open>helpers.traverse_dict\<close> is not among the sources. It walks a
  path through nested mappings and lists and returns the caller's default when a segment
  is missing, when a list index is out of range, or when the segment does not fit the
  value (a key into a list, an index into a mapping, anything into a scalar).
\<close>

fun traverse_dict :: "json \<Rightarrow> seg list \<Rightarrow> json \<Rightarrow> json" where
  "traverse_dict d [] dflt = d"
| "traverse_dict (JDict m) (Key k # ks) dflt =
     (case map_of m k of Some v \<Rightarrow> traverse_dict v ks dflt | None \<Rightarrow> dflt)"
| "traverse_dict (JList xs) (Idx i # ks) dflt =
     (let j = (if i < 0 then int (length xs) + i else i)
      in if 0 \<le> j \<and> j < int (length xs) then traverse_dict (xs ! nat j) ks dflt else dflt)"
| "traverse_dict d (k # ks) dflt = dflt"

text \<open>
  A diff entry \<open>{"error_location", "dataset_value", "other_value"}\<close>. The location is the
  field itself for a dataset field and the formatted text \<open>"<field> (<title>)"\<close> for a
  distribution field; the model keeps the two formatted components.
\<close>

datatype location = LocDataset field | LocDistribution field json

record diff_entry =
  error_location :: location
  dataset_value :: json
  other_value :: json

datatype match_result = Equal bool | Diff "diff_entry list"

definition default_fields_dataset :: "field list" where
  "default_fields_dataset = [Plain ''title'', Path [Key ''publisher'', Key ''name'']]"

text \<open>The pair \<open>(value, other_value)\<close> read for one field from both records.\<close>

definition field_values :: "json \<Rightarrow> json \<Rightarrow> field \<Rightarrow> py_error + (json \<times> json)" where
  "field_values a b f =
     (case f of
        Path p \<Rightarrow> Inr (traverse_dict a p JNull, traverse_dict b p JNull)
      | Plain k \<Rightarrow>
          (case py_get a k of
             Inl e \<Rightarrow> Inl e
           | Inr v \<Rightarrow> (case py_get b k of Inl e \<Rightarrow> Inl e | Inr w \<Rightarrow> Inr (v, w))))"

text \<open>
  The loop over \<open>fields_dataset\<close>. The state is \<open>(dataset_is_equal, dataset_diff)\<close>.
\<close>

fun compare_dataset_fields ::
  "json \<Rightarrow> json \<Rightarrow> field list \<Rightarrow> bool \<times> diff_entry list \<Rightarrow> py_error + (bool \<times> diff_entry list)"
where
  "compare_dataset_fields a b [] st = Inr st"
| "compare_dataset_fields a b (f # fs) (eq, diff) =
     (case field_values a b f of
        Inl e \<Rightarrow> Inl e
      | Inr (v, w) \<Rightarrow>
          if v \<noteq> w
          then compare_dataset_fields a b fs
                 (False, diff @ [\<lparr>error_location = LocDataset f, dataset_value = v, other_value = w\<rparr>])
          else compare_dataset_fields a b fs (eq, diff))"

text \<open>
  The inner loop over \<open>fields_distribution\<close> for one pair of distributions. The state is
  \<open>(distributions_equal, dataset_diff)\<close>; the title is read only when the values differ.
\<close>

fun compare_distribution_fields ::
  "json \<Rightarrow> json \<Rightarrow> field list \<Rightarrow> bool \<times> diff_entry list \<Rightarrow> py_error + (bool \<times> diff_entry list)"
where
  "compare_distribution_fields da db [] st = Inr st"
| "compare_distribution_fields da db (f # fs) (eq, diff) =
     (case field_values da db f of
        Inl e \<Rightarrow> Inl e
      | Inr (v, w) \<Rightarrow>
          if v \<noteq> w
          then (case py_get da ''title'' of
                  Inl e \<Rightarrow> Inl e
                | Inr t \<Rightarrow>
                    compare_distribution_fields da db fs
                      (False,
                       diff @ [\<lparr>error_location = LocDistribution f t, dataset_value = v, other_value = w\<rparr>]))
          else compare_distribution_fields da db fs (eq, diff))"

text \<open>The outer loop over \<open>zip(dataset_distributions, other_distributions)\<close>.\<close>

fun compare_distributions ::
  "(json \<times> json) list \<Rightarrow> field list \<Rightarrow> bool \<times> diff_entry list \<Rightarrow> py_error + (bool \<times> diff_entry list)"
where
  "compare_distributions [] fs st = Inr st"
| "compare_distributions ((da, db) # ps) fs st =
     (case compare_distribution_fields da db fs st of
        Inl e \<Rightarrow> Inl e
      | Inr st' \<Rightarrow> compare_distributions ps fs st')"

text \<open>
  \<open>datasets_equal(dataset, other, fields_dataset, fields_distribution, return_diff)\<close>.
  An omitted (or empty) field list is \<open>[]\<close>: Python tests both with \<open>not fields\<close>. The
  message printed on a length mismatch is not part of the result.
\<close>

definition datasets_equal ::
  "json \<Rightarrow> json \<Rightarrow> field list \<Rightarrow> field list \<Rightarrow> bool \<Rightarrow> py_error + match_result"
where
  "datasets_equal dataset other fields_dataset fields_distribution return_diff =
     (let fields_dataset = (if fields_dataset = [] then default_fields_dataset else fields_dataset)
      in case compare_dataset_fields dataset other fields_dataset (True, []) of
           Inl e \<Rightarrow> Inl e
         | Inr (eq1, diff1) \<Rightarrow>
             (case
                (if fields_distribution \<noteq> []
                 then (case py_get dataset ''distribution'' of
                         Inl e \<Rightarrow> Inl e
                       | Inr dv \<Rightarrow>
                     (case py_get other ''distribution'' of
                         Inl e \<Rightarrow> Inl e
                       | Inr ov \<Rightarrow>
                     (case py_seq dv of
                         Inl e \<Rightarrow> Inl e
                       | Inr ds \<Rightarrow>
                     (case py_seq ov of
                         Inl e \<Rightarrow> Inl e
                       | Inr os \<Rightarrow>
                     (let eq2 = (if length ds \<noteq> length os then False else eq1)
                      in case compare_distributions (zip ds os) fields_distribution (True, diff1) of
                           Inl e \<Rightarrow> Inl e
                         | Inr (distributions_equal, diff2) \<Rightarrow>
                             Inr (if \<not> distributions_equal then False else eq2, diff2))))))
                 else Inr (eq1, diff1))
              of
                Inl e \<Rightarrow> Inl e
              | Inr (eq, diff) \<Rightarrow> Inr (if return_diff then Diff diff else Equal eq)))"

section \<open>Percentages\<close>



text \<open>
  One such rounding, with ties up. It is used to evaluate the functions on samples, none
  of which has a tie.
\<close>

definition half_up :: "rat \<Rightarrow> rat" where
  "half_up x = rat_of_int (round (x * 100)) / 100"

text \<open>The truth value Python gives a count: 0 is false.\<close>

definition nonzero :: "nat \<Rightarrow> bool" where
  "nonzero n = (n \<noteq> 0)"

section \<open>Subscripts and membership\<close>

text \<open>\<open>d[k]\<close> with a string key: a mapping without the key raises \<open>KeyError\<close>.\<close>

definition py_item :: "json \<Rightarrow> string \<Rightarrow> py_error + json" where
  "py_item d k =
     (case d of
        JDict m \<Rightarrow> (case map_of m k of Some v \<Rightarrow> Inr v | None \<Rightarrow> Inl KeyError)
      | _ \<Rightarrow> Inl TypeError)"

text \<open>
  \<open>k in d\<close> with a string \<open>k\<close>: key membership in a mapping, element membership in a list,
  substring test in a string; other values are not containers.
\<close>

definition py_contains :: "json \<Rightarrow> string \<Rightarrow> py_error + bool" where
  "py_contains d k =
     (case d of
        JDict m \<Rightarrow> Inr (map_of m k \<noteq> None)
      | JList xs \<Rightarrow> Inr (List.member xs (JStr k))
      | JStr s \<Rightarrow> Inr (sublist k s)
      | _ \<Rightarrow> Inl TypeError)"

section \<open>Federation Reconciler (\<open>_federation_indicators\<close>, indicators.py)\<close>

text \<open>\<open>catalog.get('dataset', [])\<close> on a catalog, which is a mapping.\<close>

definition get_dataset :: "dict \<Rightarrow> json" where
  "get_dataset catalog = (case map_of catalog ''dataset'' of Some v \<Rightarrow> v | None \<Rightarrow> JList [])"

text \<open>The truth value Python gives the matcher's result in \<open>if datasets_equal(...)\<close>.\<close>

definition truthy_result :: "match_result \<Rightarrow> bool" where
  "truthy_result r = (case r of Equal b \<Rightarrow> b | Diff ds \<Rightarrow> ds \<noteq> [])"

text \<open>
  The inner scan of both passes: compare \<open>dataset\<close> with the candidates in order and stop
  at the first match. \<open>flip\<close> tells which argument the scanned element is (the second in
  pass 1, the first in pass 2).
\<close>

fun scan_match :: "bool \<Rightarrow> json \<Rightarrow> json list \<Rightarrow> py_error + bool" where
  "scan_match flip d [] = Inr False"
| "scan_match flip d (c # cs) =
     (case (if flip then datasets_equal c d [] [] False else datasets_equal d c [] [] False) of
        Inl e \<Rightarrow> Inl e
      | Inr r \<Rightarrow> if truthy_result r then Inr True else scan_match flip d cs)"

text \<open>The display tuple \<open>(d.get('title'), d.get('landingPage'))\<close>.\<close>

definition title_landing :: "json \<Rightarrow> py_error + (json \<times> json)" where
  "title_landing d =
     (case py_get d ''title'' of
        Inl e \<Rightarrow> Inl e
      | Inr t \<Rightarrow> (case py_get d ''landingPage'' of Inl e \<Rightarrow> Inl e | Inr l \<Rightarrow> Inr (t, l)))"

text \<open>
  Pass 1. The state is \<open>(federados, no_federados, datasets_federados,
  datasets_no_federados)\<close>. The central list is iterated anew for every local dataset, so
  a central value that cannot be iterated raises only when there is a local dataset.
\<close>

fun forward_pass ::
  "py_error + json list \<Rightarrow> json list \<Rightarrow> nat \<times> nat \<times> (json \<times> json) list \<times> (json \<times> json) list
   \<Rightarrow> py_error + (nat \<times> nat \<times> (json \<times> json) list \<times> (json \<times> json) list)"
where
  "forward_pass central [] st = Inr st"
| "forward_pass central (d # ds) (fed, nofed, lfed, lnofed) =
     (case central of
        Inl e \<Rightarrow> Inl e
      | Inr cs \<Rightarrow>
          (case scan_match False d cs of
             Inl e \<Rightarrow> Inl e
           | Inr found \<Rightarrow>
               (case title_landing d of
                  Inl e \<Rightarrow> Inl e
                | Inr t \<Rightarrow>
                    if found then forward_pass central ds (fed + 1, nofed, lfed @ [t], lnofed)
                    else forward_pass central ds (fed, nofed + 1, lfed, lnofed @ [t]))))"

text \<open>
  \<open>_filter_by_likely_publisher\<close>: first the comprehension that collects the publisher
  names of the local datasets, then the loop that keeps the central datasets whose
  publisher name is among them. Both subscript \<open>["publisher"]\<close> without a default.
\<close>

fun publisher_names :: "json list \<Rightarrow> py_error + json list" where
  "publisher_names [] = Inr []"
| "publisher_names (d # ds) =
     (case py_item d ''publisher'' of
        Inl e \<Rightarrow> Inl e
      | Inr p \<Rightarrow>
          (case py_contains p ''name'' of
             Inl e \<Rightarrow> Inl e
           | Inr has \<Rightarrow>
               if has
               then (case py_item p ''name'' of
                       Inl e \<Rightarrow> Inl e
                     | Inr n \<Rightarrow>
                         (case publisher_names ds of Inl e \<Rightarrow> Inl e | Inr ns \<Rightarrow> Inr (n # ns)))
               else publisher_names ds))"

fun filter_central :: "json list \<Rightarrow> json list \<Rightarrow> py_error + json list" where
  "filter_central names [] = Inr []"
| "filter_central names (c # cs) =
     (case py_item c ''publisher'' of
        Inl e \<Rightarrow> Inl e
      | Inr p \<Rightarrow>
          (case py_contains p ''name'' of
             Inl e \<Rightarrow> Inl e
           | Inr has \<Rightarrow>
               if has
               then (case py_item p ''name'' of
                       Inl e \<Rightarrow> Inl e
                     | Inr n \<Rightarrow>
                         (case filter_central names cs of
                            Inl e \<Rightarrow> Inl e
                          | Inr r \<Rightarrow> Inr (if List.member names n then c # r else r)))
               else filter_central names cs))"

definition filter_by_likely_publisher :: "json \<Rightarrow> json \<Rightarrow> py_error + json list" where
  "filter_by_likely_publisher central_datasets catalog_datasets =
     (case py_seq catalog_datasets of
        Inl e \<Rightarrow> Inl e
      | Inr ds \<Rightarrow>
          (case publisher_names ds of
             Inl e \<Rightarrow> Inl e
           | Inr names \<Rightarrow>
               (case py_seq central_datasets of
                  Inl e \<Rightarrow> Inl e
                | Inr cs \<Rightarrow> filter_central names cs)))"

text \<open>
  Pass 2. The state is \<open>(datasets_federados_eliminados_cant,
  datasets_federados_eliminados)\<close>.
\<close>

fun deletion_pass ::
  "py_error + json list \<Rightarrow> json list \<Rightarrow> nat \<times> (json \<times> json) list
   \<Rightarrow> py_error + (nat \<times> (json \<times> json) list)"
where
  "deletion_pass locals [] st = Inr st"
| "deletion_pass locals (c # cs) (n, lst) =
     (case locals of
        Inl e \<Rightarrow> Inl e
      | Inr ds \<Rightarrow>
          (case scan_match True c ds of
             Inl e \<Rightarrow> Inl e
           | Inr found \<Rightarrow>
               if found then deletion_pass locals cs (n, lst)
               else (case title_landing c of
                       Inl e \<Rightarrow> Inl e
                     | Inr t \<Rightarrow> deletion_pass locals cs (n + 1, lst @ [t]))))"

record federation_result =
  datasets_federados_cant :: nat
  datasets_no_federados_cant :: nat
  datasets_federados_eliminados_cant :: nat
  datasets_federados_eliminados :: "(json \<times> json) list"
  datasets_no_federados :: "(json \<times> json) list"
  datasets_federados :: "(json \<times> json) list"
  datasets_federados_pct :: rat

text \<open>The guarded percentage of the reconciler (\<open>if federados or no_federados\<close>).\<close>

definition federados_pct :: "nat \<Rightarrow> nat \<Rightarrow> rat" where
  "federados_pct federados no_federados =
     (if nonzero federados \<or> nonzero no_federados
      then 100 * rat_of_nat federados / rat_of_nat (federados + no_federados)
      else 0)"

definition federation_indicators :: "(rat \<Rightarrow> rat) \<Rightarrow> dict \<Rightarrow> dict \<Rightarrow> py_error + federation_result" where
  "federation_indicators rnd catalog central_catalog =
     (case py_seq (get_dataset catalog) of
        Inl e \<Rightarrow> Inl e
      | Inr ds \<Rightarrow>
     (case forward_pass (py_seq (get_dataset central_catalog)) ds (0, 0, [], []) of
        Inl e \<Rightarrow> Inl e
      | Inr (federados, no_federados, lfed, lnofed) \<Rightarrow>
     (case filter_by_likely_publisher (get_dataset central_catalog) (get_dataset catalog) of
        Inl e \<Rightarrow> Inl e
      | Inr filtered_central \<Rightarrow>
     (case deletion_pass (py_seq (get_dataset catalog)) filtered_central (0, []) of
        Inl e \<Rightarrow> Inl e
      | Inr (eliminados_cant, eliminados) \<Rightarrow>
          Inr \<lparr>datasets_federados_cant = federados,
               datasets_no_federados_cant = no_federados,
               datasets_federados_eliminados_cant = eliminados_cant,
               datasets_federados_eliminados = eliminados,
               datasets_no_federados = lnofed,
               datasets_federados = lfed,
               datasets_federados_pct = rnd (federados_pct federados no_federados)\<rparr>))))"

text \<open>
  Predicates on datasets used to state what the pre-filter of pass 2 needs: a dataset
  that is a mapping without a \<open>publisher\<close> key, and a dataset that is a mapping whose
  \<open>publisher\<close>, when present, is a mapping (the documented data model).
\<close>

definition is_mapping :: "json \<Rightarrow> bool" where
  "is_mapping d = (case d of JDict m \<Rightarrow> True | _ \<Rightarrow> False)"

definition lacks_publisher :: "json \<Rightarrow> bool" where
  "lacks_publisher d = (case d of JDict m \<Rightarrow> map_of m ''publisher'' = None | _ \<Rightarrow> False)"

definition publisher_is_mapping :: "json \<Rightarrow> bool" where
  "publisher_is_mapping d =
     (case d of
        JDict m \<Rightarrow> (case map_of m ''publisher'' of None \<Rightarrow> True | Some p \<Rightarrow> is_mapping p)
      | _ \<Rightarrow> False)"

section \<open>Bulk Removal Planner (\<open>remove_datasets_from_ckan\<close>, federation.py)\<close>

text \<open>
  The pagination loop. \<open>package_search start\<close> is the registry's answer
  \<open>(count, identifiers of the results)\<close> to the search with \<open>rows = 500\<close> at offset \<open>start\<close>.
  The loop runs while the last reported count exceeds \<open>start\<close>; a registry whose count
  always exceeds the offset keeps it running forever, which is the value \<open>None\<close>.
\<close>

partial_function (option) search_loop ::
  "(nat \<Rightarrow> nat \<times> string list) \<Rightarrow> nat \<times> string list \<Rightarrow> nat \<Rightarrow> string list \<Rightarrow> string list option"
where
  "search_loop package_search search_result start org_identifiers =
     (if fst search_result > start
      then search_loop package_search (package_search start) (start + 500)
             (org_identifiers @ snd (package_search start))
      else Some org_identifiers)"

declare search_loop.simps [code]

text \<open>The identifiers of the organization source: the first page, then the loop.\<close>

definition organization_identifiers :: "(nat \<Rightarrow> nat \<times> string list) \<Rightarrow> string list option" where
  "organization_identifiers package_search =
     search_loop package_search (package_search 0) 500 (snd (package_search 0))"

text \<open>Whether a catalog-content filter is active.\<close>

definition datajson_filters :: "json \<Rightarrow> json \<Rightarrow> bool \<Rightarrow> bool" where
  "datajson_filters filter_in filter_out only_time_series =
     (truthy filter_in \<or> truthy filter_out \<or> only_time_series)"

text \<open>
  \<open>remove_datasets_from_ckan\<close>. The collaborators are parameters: \<open>get_datasets\<close> is the
  search by filter of the catalog's data file (its result for the given filters), and
  \<open>package_search\<close> takes the query \<open>'organization:"' + organization + '"'\<close> and the offset. The result is
  the list of identifiers passed to \<open>dataset_purge\<close>, in call order. In the intersection
  case Python iterates a set: every identifier once, in an order the language leaves open;
  the model lists them in the order of the filter source.
\<close>

definition remove_datasets_from_ckan ::
  "(json \<Rightarrow> json \<Rightarrow> bool \<Rightarrow> string list) \<Rightarrow> (string \<Rightarrow> nat \<Rightarrow> nat \<times> string list) \<Rightarrow>
   json \<Rightarrow> json \<Rightarrow> bool \<Rightarrow> string option \<Rightarrow> string list option"
where
  "remove_datasets_from_ckan get_datasets package_search filter_in filter_out only_time_series
     organization =
     (let filters = datajson_filters filter_in filter_out only_time_series;
          identifiers =
            (if filters then get_datasets filter_in filter_out only_time_series else [])
      in case organization of
           None \<Rightarrow> Some identifiers
         | Some org \<Rightarrow>
             if org = [] then Some identifiers
             else (case organization_identifiers
                          (package_search (''organization:\"'' @ org @ ''\"'')) of
                     None \<Rightarrow> None
                   | Some org_identifiers \<Rightarrow>
                       if filters
                       then Some (remdups (filter (\<lambda>i. i \<in> set org_identifiers) identifiers))
                       else Some org_identifiers))"

section \<open>Field Usage Counter (\<open>_count_fields_recursive\<close>, indicators.py)\<close>

text \<open>
  The field-requirement schema: a mapping from field names to a label (a leaf) or to a
  nested schema. Python tells the two apart with \<open>isinstance(v, dict)\<close>.
\<close>

datatype label = Requerido | Recomendado | Optativo

datatype schema = Leaf label | Nested "(string \<times> schema) list"

record key_count =
  recomendado :: nat
  optativo :: nat
  requerido :: nat
  total_optativo :: nat
  total_recomendado :: nat
  total_requerido :: nat

definition zero_count :: key_count where
  "zero_count =
     \<lparr>recomendado = 0, optativo = 0, requerido = 0,
      total_optativo = 0, total_recomendado = 0, total_requerido = 0\<rparr>"

text \<open>\<open>key_count[key] += result[key]\<close> for every key.\<close>

definition add_count :: "key_count \<Rightarrow> key_count \<Rightarrow> key_count" where
  "add_count a b =
     \<lparr>recomendado = recomendado a + recomendado b,
      optativo = optativo a + optativo b,
      requerido = requerido a + requerido b,
      total_optativo = total_optativo a + total_optativo b,
      total_recomendado = total_recomendado a + total_recomendado b,
      total_requerido = total_requerido a + total_requerido b\<rparr>"

text \<open>
  A leaf: \<open>key_count['total_' + v] += 1\<close>, and \<open>key_count[v] += 1\<close> when the key is in the
  record.
\<close>

definition count_leaf :: "label \<Rightarrow> bool \<Rightarrow> key_count \<Rightarrow> key_count" where
  "count_leaf v present c =
     (case v of
        Requerido \<Rightarrow>
          c\<lparr>total_requerido := total_requerido c + 1,
            requerido := requerido c + (if present then 1 else 0)\<rparr>
      | Recomendado \<Rightarrow>
          c\<lparr>total_recomendado := total_recomendado c + 1,
            recomendado := recomendado c + (if present then 1 else 0)\<rparr>
      | Optativo \<Rightarrow>
          c\<lparr>total_optativo := total_optativo c + 1,
            optativo := optativo c + (if present then 1 else 0)\<rparr>)"

text \<open>
  The elements to recurse into for the record's value at a nested key: the list itself,
  a mapping as a one-element list, and \<open>[{}]\<close> for anything else (\<open>None\<close> for a missing key
  included).
\<close>

definition elements_of :: "json \<Rightarrow> json list" where
  "elements_of v = (case v of JList xs \<Rightarrow> xs | JDict m \<Rightarrow> [JDict m] | _ \<Rightarrow> [JDict []])"

text \<open>
  The loop over \<open>fields.items()\<close> with the running \<open>key_count\<close>, and the loop over the
  elements that adds each recursive result to it.
\<close>

function fields_loop :: "json \<Rightarrow> (string \<times> schema) list \<Rightarrow> key_count \<Rightarrow> py_error + key_count"
  and elements_loop :: "json list \<Rightarrow> (string \<times> schema) list \<Rightarrow> key_count \<Rightarrow> py_error + key_count"
where
  "fields_loop dataset [] c = Inr c"
| "fields_loop dataset ((k, Nested v) # fs) c =
     (case py_get dataset k of
        Inl e \<Rightarrow> Inl e
      | Inr elements \<Rightarrow>
          (case elements_loop (elements_of elements) v c of
             Inl e \<Rightarrow> Inl e
           | Inr c' \<Rightarrow> fields_loop dataset fs c'))"
| "fields_loop dataset ((k, Leaf v) # fs) c =
     (case py_contains dataset k of
        Inl e \<Rightarrow> Inl e
      | Inr present \<Rightarrow> fields_loop dataset fs (count_leaf v present c))"
| "elements_loop [] v c = Inr c"
| "elements_loop (element # elements) v c =
     (case fields_loop element v zero_count of
        Inl e \<Rightarrow> Inl e
      | Inr result \<Rightarrow> elements_loop elements v (add_count c result))"
  by pat_completeness auto
termination
  by (relation "inv_image (less_than <*lex*> less_than)
        (\<lambda>x. case x of
           Inl (dataset, fs, c) \<Rightarrow> (size_list (size_prod (\<lambda>k. 0) size) fs, 0)
         | Inr (elements, v, c) \<Rightarrow> (size_list (size_prod (\<lambda>k. 0) size) v, Suc (length elements)))")
     auto

definition count_fields_recursive :: "json \<Rightarrow> (string \<times> schema) list \<Rightarrow> py_error + key_count" where
  "count_fields_recursive dataset fs = fields_loop dataset fs zero_count"

text \<open>The three \<open>total_*\<close> counters of a tally.\<close>

definition totals :: "key_count \<Rightarrow> nat \<times> nat \<times> nat" where
  "totals c = (total_requerido c, total_recomendado c, total_optativo c)"

text \<open>
  Two records have the same shape under a schema when both are mappings and, at every
  nested key of the schema, they resolve to equally many elements that again have the
  same shape under the nested schema.
\<close>

function same_shape :: "json \<Rightarrow> json \<Rightarrow> (string \<times> schema) list \<Rightarrow> bool"
  and same_shape_list :: "json list \<Rightarrow> json list \<Rightarrow> (string \<times> schema) list \<Rightarrow> bool"
where
  "same_shape r1 r2 [] = (is_mapping r1 \<and> is_mapping r2)"
| "same_shape r1 r2 ((k, Nested v) # fs) =
     (case (py_get r1 k, py_get r2 k) of
        (Inr v1, Inr v2) \<Rightarrow>
          same_shape_list (elements_of v1) (elements_of v2) v \<and> same_shape r1 r2 fs
      | _ \<Rightarrow> False)"
| "same_shape r1 r2 ((k, Leaf v) # fs) = same_shape r1 r2 fs"
| "same_shape_list [] [] v = True"
| "same_shape_list (e1 # es1) (e2 # es2) v = (same_shape e1 e2 v \<and> same_shape_list es1 es2 v)"
| "same_shape_list [] (e2 # es2) v = False"
| "same_shape_list (e1 # es1) [] v = False"
  by pat_completeness auto
termination
  by (relation "inv_image (less_than <*lex*> less_than)
        (\<lambda>x. case x of
           Inl (r1, r2, fs) \<Rightarrow> (size_list (size_prod (\<lambda>k. 0) size) fs, 0)
         | Inr (es1, es2, v) \<Rightarrow> (size_list (size_prod (\<lambda>k. 0) size) v, Suc (length es1)))")
     auto

text \<open>Componentwise sum of two triples of totals.\<close>

definition totals_add :: "nat \<times> nat \<times> nat \<Rightarrow> nat \<times> nat \<times> nat \<Rightarrow> nat \<times> nat \<times> nat" where
  "totals_add a b =
     (case a of (a1, a2, a3) \<Rightarrow> case b of (b1, b2, b3) \<Rightarrow> (a1 + b1, a2 + b2, a3 + b3))"

section \<open>Freshness Evaluator (\<open>_days_from_last_update\<close>, \<open>_generate_date_indicators\<close>)\<close>

text \<open>
  The clock and the two parsers of \<open>helpers\<close> are not among the sources; they are
  parameters of the model. \<open>days_since v\<close> stands for
  \<open>(datetime.now() - helpers.parse_date_string(v)).days\<close> and is \<open>None\<close> when the parser
  gives no date; \<open>interval_days p\<close> stands for \<open>helpers.parse_repeating_time_interval(p)\<close>,
  the days of an ISO 8601 repeating interval.
\<close>

text \<open>\<open>d.get(k, default)\<close>.\<close>

definition py_get_default :: "json \<Rightarrow> string \<Rightarrow> json \<Rightarrow> py_error + json" where
  "py_get_default d k dflt =
     (case d of
        JDict m \<Rightarrow> Inr (case map_of m k of Some v \<Rightarrow> v | None \<Rightarrow> dflt)
      | _ \<Rightarrow> Inl AttributeError)"

text \<open>\<open>not dias\<close> for a day count that is \<open>None\<close> or a number: \<open>None\<close> and 0 are false.\<close>

definition days_falsy :: "int option \<Rightarrow> bool" where
  "days_falsy d = (case d of None \<Rightarrow> True | Some n \<Rightarrow> n = 0)"

text \<open>
  One step of the loop over the datasets:
  \<open>if not dias or (days_diff and days_diff < dias): dias = days_diff\<close>.
\<close>

definition update_days :: "int option \<Rightarrow> int option \<Rightarrow> int option" where
  "update_days dias days_diff =
     (if days_falsy dias
         \<or> (\<not> days_falsy days_diff
             \<and> (case (days_diff, dias) of (Some a, Some b) \<Rightarrow> a < b | _ \<Rightarrow> False))
      then days_diff else dias)"

fun days_loop :: "(json \<Rightarrow> int option) \<Rightarrow> string \<Rightarrow> json list \<Rightarrow> int option \<Rightarrow> py_error + int option"
where
  "days_loop days_since date_field [] dias = Inr dias"
| "days_loop days_since date_field (dataset # datasets) dias =
     (case py_get_default dataset date_field (JStr []) of
        Inl e \<Rightarrow> Inl e
      | Inr v \<Rightarrow> days_loop days_since date_field datasets (update_days dias (days_since v)))"

text \<open>
  \<open>_days_from_last_update(catalog, date_field)\<close>. At catalog level the date is parsed only
  when it is a string, and the subtraction raises when the parser gives no date.
\<close>

definition days_from_last_update ::
  "(json \<Rightarrow> int option) \<Rightarrow> dict \<Rightarrow> string \<Rightarrow> py_error + int option"
where
  "days_from_last_update days_since catalog date_field =
     (case
        (case map_of catalog date_field of
           Some (JStr s) \<Rightarrow>
             (case days_since (JStr s) of None \<Rightarrow> Inl TypeError | Some n \<Rightarrow> Inr (Some n))
         | _ \<Rightarrow> Inr None)
      of
        Inl e \<Rightarrow> Inl e
      | Inr dias0 \<Rightarrow>
          (case py_seq (get_dataset catalog) of
             Inl e \<Rightarrow> Inl e
           | Inr datasets \<Rightarrow>
               (case days_loop days_since date_field datasets dias0 of
                  Inl e \<Rightarrow> Inl e
                | Inr dias \<Rightarrow> Inr (if days_falsy dias then None else dias))))"

text \<open>
  A histogram is a Python mapping from values to counts; a list or a mapping is not
  hashable and cannot be a key. \<open>increment k h\<close> is \<open>h[k] = h.get(k, 0) + 1\<close>.
\<close>

definition hashable :: "json \<Rightarrow> bool" where
  "hashable v = (case v of JList xs \<Rightarrow> False | JDict m \<Rightarrow> False | _ \<Rightarrow> True)"

definition increment :: "json \<Rightarrow> (json \<times> nat) list \<Rightarrow> py_error + (json \<times> nat) list" where
  "increment k h =
     (if hashable k
      then Inr (AList.update k ((case map_of h k of Some n \<Rightarrow> n | None \<Rightarrow> 0) + 1) h)
      else Inl TypeError)"

text \<open>
  The classification of one dataset with a periodicity other than \<open>eventual\<close>: the new
  \<open>(actualizados, desactualizados)\<close>.
\<close>

definition classify_dataset ::
  "(json \<Rightarrow> int option) \<Rightarrow> (json \<Rightarrow> py_error + rat) \<Rightarrow> rat \<Rightarrow> json \<Rightarrow> json \<Rightarrow> nat \<times> nat
   \<Rightarrow> py_error + (nat \<times> nat)"
where
  "classify_dataset days_since interval_days tolerance dataset periodicity st =
     (case st of (actualizados, desactualizados) \<Rightarrow>
        (case py_contains dataset ''modified'' of
           Inl e \<Rightarrow> Inl e
         | Inr has_modified \<Rightarrow>
             if \<not> has_modified then Inr (actualizados, desactualizados + 1)
             else (case py_item dataset ''modified'' of
                     Inl e \<Rightarrow> Inl e
                   | Inr m \<Rightarrow>
                       (case days_since m of
                          None \<Rightarrow> Inl TypeError
                        | Some days_diff \<Rightarrow>
                            (case interval_days periodicity of
                               Inl e \<Rightarrow> Inl e
                             | Inr i \<Rightarrow>
                                 if rat_of_int days_diff < i * (1 + tolerance)
                                 then Inr (actualizados + 1, desactualizados)
                                 else Inr (actualizados, desactualizados + 1))))))"

text \<open>
  The loop over the datasets of \<open>_generate_date_indicators\<close>. The state is
  \<open>(actualizados, desactualizados, periodicity_amount)\<close>.
\<close>

fun periodicity_loop ::
  "(json \<Rightarrow> int option) \<Rightarrow> (json \<Rightarrow> py_error + rat) \<Rightarrow> rat \<Rightarrow> json list
   \<Rightarrow> nat \<times> nat \<times> (json \<times> nat) list \<Rightarrow> py_error + (nat \<times> nat \<times> (json \<times> nat) list)"
where
  "periodicity_loop days_since interval_days tolerance [] st = Inr st"
| "periodicity_loop days_since interval_days tolerance (dataset # datasets)
     (actualizados, desactualizados, periodicity_amount) =
     (case py_get dataset ''accrualPeriodicity'' of
        Inl e \<Rightarrow> Inl e
      | Inr periodicity \<Rightarrow>
          if \<not> truthy periodicity
          then periodicity_loop days_since interval_days tolerance datasets
                 (actualizados, desactualizados, periodicity_amount)
          else if periodicity = JStr ''eventual''
          then (case increment periodicity periodicity_amount of
                  Inl e \<Rightarrow> Inl e
                | Inr amount \<Rightarrow>
                    periodicity_loop days_since interval_days tolerance datasets
                      (actualizados + 1, desactualizados, amount))
          else (case classify_dataset days_since interval_days tolerance dataset periodicity
                       (actualizados, desactualizados) of
                  Inl e \<Rightarrow> Inl e
                | Inr (act, desact) \<Rightarrow>
                    (case increment periodicity periodicity_amount of
                       Inl e \<Rightarrow> Inl e
                     | Inr amount \<Rightarrow>
                         periodicity_loop days_since interval_days tolerance datasets
                           (act, desact, amount))))"

record date_indicators =
  catalogo_ultima_actualizacion_dias :: "int option"
  datasets_desactualizados_cant :: nat
  datasets_actualizados_cant :: nat
  datasets_actualizados_pct :: rat
  datasets_frecuencia_cant :: "(json \<times> nat) list"

text \<open>
  \<open>_generate_date_indicators(catalog, tolerance)\<close>. The percentage is
  \<open>100 * round(actualizados / datasets_total, 2)\<close> with \<open>datasets_total\<close> the number of all
  datasets of the catalog.
\<close>

definition generate_date_indicators ::
  "(rat \<Rightarrow> rat) \<Rightarrow> (json \<Rightarrow> int option) \<Rightarrow> (json \<Rightarrow> py_error + rat) \<Rightarrow> rat \<Rightarrow> dict \<Rightarrow> py_error + date_indicators"
where
  "generate_date_indicators rnd days_since interval_days tolerance catalog =
     (case days_from_last_update days_since catalog ''modified'' of
        Inl e \<Rightarrow> Inl e
      | Inr dias_modified \<Rightarrow>
     (case (if days_falsy dias_modified
            then days_from_last_update days_since catalog ''issued''
            else Inr dias_modified) of
        Inl e \<Rightarrow> Inl e
      | Inr dias_ultima_actualizacion \<Rightarrow>
     (case py_seq (get_dataset catalog) of
        Inl e \<Rightarrow> Inl e
      | Inr datasets \<Rightarrow>
     (case periodicity_loop days_since interval_days tolerance datasets (0, 0, []) of
        Inl e \<Rightarrow> Inl e
      | Inr (actualizados, desactualizados, periodicity_amount) \<Rightarrow>
          (let datasets_total = length datasets;
               actualizados_pct =
                 (if datasets_total \<noteq> 0
                  then rat_of_nat actualizados / rat_of_nat datasets_total else 0)
           in Inr \<lparr>catalogo_ultima_actualizacion_dias = dias_ultima_actualizacion,
                   datasets_desactualizados_cant = desactualizados,
                   datasets_actualizados_cant = actualizados,
                   datasets_actualizados_pct = 100 * rnd actualizados_pct,
                   datasets_frecuencia_cant = periodicity_amount\<rparr>)))))"

section \<open>Indicator Aggregator (\<open>_generate_indicators\<close>, \<open>generate_catalogs_indicators\<close>)\<close>






























section \<open>Sample inputs\<close>

text \<open>Two datasets with the same title whose distribution lists have lengths 1 and 2.\<close>

definition one_distribution :: json where
  "one_distribution =
     JDict [(''title'', JStr ''t''),
            (''distribution'', JList [JDict [(''format'', JStr ''CSV'')]])]"

definition two_distributions :: json where
  "two_distributions =
     JDict [(''title'', JStr ''t''),
            (''distribution'',
             JList [JDict [(''format'', JStr ''CSV'')], JDict [(''format'', JStr ''XLS'')]])]"

text \<open>Catalogs for the reconciler: three datasets of one publisher, one without publisher.\<close>

definition dataset_a :: json where
  "dataset_a = JDict [(''title'', JStr ''a''), (''publisher'', JDict [(''name'', JStr ''P'')])]"

definition dataset_b :: json where
  "dataset_b = JDict [(''title'', JStr ''b''), (''publisher'', JDict [(''name'', JStr ''P'')])]"


definition dataset_no_publisher :: json where
  "dataset_no_publisher = JDict [(''title'', JStr ''a'')]"

definition central_ab :: dict where
  "central_ab = [(''dataset'', JList [dataset_a, dataset_b])]"



definition local_no_publisher :: dict where
  "local_no_publisher = [(''dataset'', JList [dataset_no_publisher])]"


text \<open>
  Collaborators for the removal planner: the filter search finds \<open>id_2\<close>, \<open>id_3\<close> and
  \<open>id_9\<close>; the registry answers the query for \<open>some_org\<close> with a count of 1001 and one
  identifier on each of the pages at the offsets 0, 500 and 1000, and has nothing for
  any other query.
\<close>

definition filter_finds_239 :: "json \<Rightarrow> json \<Rightarrow> bool \<Rightarrow> string list" where
  "filter_finds_239 filter_in filter_out only_time_series = [''id_2'', ''id_3'', ''id_9'']"

definition registry_three_pages :: "string \<Rightarrow> nat \<Rightarrow> nat \<times> string list" where
  "registry_three_pages query start =
     (if query = ''organization:\"some_org\"''
      then (1001,
            if start = 0 then [''id_1'']
            else if start = 500 then [''id_2'']
            else if start = 1000 then [''id_3'']
            else [])
      else (0, []))"

text \<open>
  A schema with a leaf, a nested mapping and a nested list, and records for it: two with
  one dataset each (one filled in, one with a wrongly typed publisher and an empty
  dataset), one with no dataset and one with two.
\<close>

definition sample_schema :: "(string \<times> schema) list" where
  "sample_schema =
     [(''title'', Leaf Requerido),
      (''publisher'', Nested [(''name'', Leaf Recomendado)]),
      (''dataset'', Nested [(''title'', Leaf Requerido), (''license'', Leaf Optativo)])]"

definition record_filled :: json where
  "record_filled =
     JDict [(''title'', JStr ''t''),
            (''publisher'', JDict [(''name'', JStr ''P'')]),
            (''dataset'', JList [JDict [(''title'', JStr ''d''), (''license'', JStr ''l'')]])]"

definition record_sparse :: json where
  "record_sparse = JDict [(''publisher'', JNum 5), (''dataset'', JList [JDict []])]"

definition record_no_dataset :: json where
  "record_no_dataset = JDict [(''dataset'', JList [])]"

definition record_two_datasets :: json where
  "record_two_datasets = JDict [(''dataset'', JList [JDict [], JDict []])]"

text \<open>
  A clock for the freshness samples: the date \<open>2026-11-04\<close> is today, nothing else
  parses; every interval is a year.
\<close>

definition today_only :: "json \<Rightarrow> int option" where
  "today_only v = (if v = JStr ''2026-11-04'' then Some 0 else None)"

definition yearly :: "json \<Rightarrow> py_error + rat" where
  "yearly p = Inr 365"

text \<open>
  A catalog with three datasets: one \<open>eventual\<close>, one yearly without \<open>modified\<close>, one
  without periodicity. And a catalog modified today, without datasets.
\<close>

definition catalog_three_periodicities :: dict where
  "catalog_three_periodicities =
     [(''dataset'',
       JList [JDict [(''accrualPeriodicity'', JStr ''eventual'')],
              JDict [(''accrualPeriodicity'', JStr ''R/P1Y'')],
              JDict []])]"

definition catalog_modified_today :: dict where
  "catalog_modified_today = [(''modified'', JStr ''2026-11-04'')]"













section \<open>Properties of the Dataset Matcher\<close>

lemma field_values_swap:
  "field_values b a f = (case field_values a b f of Inl e \<Rightarrow> Inl e | Inr (v, w) \<Rightarrow> Inr (w, v))"
  by (cases f; cases a; cases b) (simp_all add: field_values_def py_get_def)

lemma compare_dataset_fields_swap:
  "map_sum id fst (compare_dataset_fields b a fs (eq, d1)) =
   map_sum id fst (compare_dataset_fields a b fs (eq, d2))"
proof (induction fs arbitrary: eq d1 d2)
  case Nil
  show ?case by simp
next
  case (Cons f fs)
  show ?case
  proof (cases "field_values a b f")
    case (Inl e)
    then show ?thesis by (simp add: field_values_swap [of b a f])
  next
    case (Inr p)
    obtain v w where p: "p = (v, w)" by (cases p)
    from Inr p have ba: "field_values b a f = Inr (w, v)"
      by (simp add: field_values_swap [of b a f])
    show ?thesis
      using Inr p ba Cons.IH by auto
  qed
qed

text \<open>
  Claim C8. Used for equality only (no distribution fields, \<open>return_diff = False\<close>), the
  matcher is symmetric: \<open>datasets_equal a b\<close> and \<open>datasets_equal b a\<close> give the same
  answer (the same boolean, or the same exception), for the default dataset fields
  (\<open>fs = []\<close>) and for every other choice of dataset fields.
\<close>

theorem datasets_equal_symmetric:
  "datasets_equal a b fs [] False = datasets_equal b a fs [] False"
proof -
  let ?fs = "if fs = [] then default_fields_dataset else fs"
  have "map_sum id fst (compare_dataset_fields a b ?fs (True, [])) =
        map_sum id fst (compare_dataset_fields b a ?fs (True, []))"
    by (rule compare_dataset_fields_swap)
  then show ?thesis
    unfolding datasets_equal_def Let_def
    by (cases "compare_dataset_fields a b ?fs (True, [])";
        cases "compare_dataset_fields b a ?fs (True, [])") auto
qed

text \<open>
  Claim C10. An empty diff does not imply a match. The two sample datasets agree on the
  default dataset fields, their distribution lists have different lengths (1 and 2) and
  agree on \<open>format\<close> at the one common position; with \<open>return_diff = True\<close> the matcher
  returns the empty diff list, with \<open>return_diff = False\<close> it returns \<open>False\<close>.
\<close>

theorem empty_diff_without_match:
  "datasets_equal one_distribution two_distributions [] [Plain ''format''] True = Inr (Diff [])
   \<and> datasets_equal one_distribution two_distributions [] [Plain ''format''] False = Inr (Equal False)"
  by (simp add: datasets_equal_def one_distribution_def two_distributions_def
        default_fields_dataset_def field_values_def py_get_def py_seq_def)

section \<open>Properties of the rounding\<close>






section \<open>Properties of the Federation Reconciler\<close>








lemma publisher_names_raises:
  "\<exists>d\<in>set ds. lacks_publisher d \<Longrightarrow> \<exists>e. publisher_names ds = Inl e"
proof (induction ds)
  case Nil
  then show ?case by simp
next
  case (Cons d ds)
  show ?case
  proof (cases "lacks_publisher d")
    case True
    then have "py_item d ''publisher'' = Inl KeyError"
      by (auto simp: lacks_publisher_def py_item_def split: json.splits)
    then show ?thesis by simp
  next
    case False
    with Cons.prems have "\<exists>d\<in>set ds. lacks_publisher d" by simp
    from Cons.IH [OF this] obtain e where "publisher_names ds = Inl e" ..
    then show ?thesis by (simp split: sum.splits)
  qed
qed

lemma filter_central_raises:
  "\<exists>c\<in>set cs. lacks_publisher c \<Longrightarrow> \<exists>e. filter_central names cs = Inl e"
proof (induction cs)
  case Nil
  then show ?case by simp
next
  case (Cons c cs)
  show ?case
  proof (cases "lacks_publisher c")
    case True
    then have "py_item c ''publisher'' = Inl KeyError"
      by (auto simp: lacks_publisher_def py_item_def split: json.splits)
    then show ?thesis by simp
  next
    case False
    with Cons.prems have "\<exists>c\<in>set cs. lacks_publisher c" by simp
    from Cons.IH [OF this] obtain e where "filter_central names cs = Inl e" ..
    then show ?thesis by (simp split: sum.splits)
  qed
qed

lemma publisher_step:
  assumes "publisher_is_mapping d"
  shows "(lacks_publisher d \<and> py_item d ''publisher'' = Inl KeyError) \<or>
         (\<not> lacks_publisher d \<and> (\<exists>p. py_item d ''publisher'' = Inr p \<and>
            ((py_contains p ''name'' = Inr False) \<or>
             (py_contains p ''name'' = Inr True \<and> (\<exists>n. py_item p ''name'' = Inr n)))))"
  using assms
  by (auto simp: publisher_is_mapping_def is_mapping_def lacks_publisher_def py_item_def
        py_contains_def split: json.splits option.splits)

lemma publisher_names_wf:
  "\<forall>d\<in>set ds. publisher_is_mapping d \<Longrightarrow>
   (if \<exists>d\<in>set ds. lacks_publisher d then publisher_names ds = Inl KeyError
    else \<exists>ns. publisher_names ds = Inr ns)"
proof (induction ds)
  case Nil
  then show ?case by simp
next
  case (Cons d ds)
  then have wf: "publisher_is_mapping d"
    and IH: "if \<exists>d\<in>set ds. lacks_publisher d then publisher_names ds = Inl KeyError
             else \<exists>ns. publisher_names ds = Inr ns"
    by simp_all
  from publisher_step [OF wf] IH show ?case
    by (auto split: if_splits)
qed

lemma filter_central_wf:
  "\<forall>c\<in>set cs. publisher_is_mapping c \<Longrightarrow>
   (if \<exists>c\<in>set cs. lacks_publisher c then filter_central names cs = Inl KeyError
    else \<exists>r. filter_central names cs = Inr r)"
proof (induction cs)
  case Nil
  then show ?case by simp
next
  case (Cons c cs)
  then have wf: "publisher_is_mapping c"
    and IH: "if \<exists>c\<in>set cs. lacks_publisher c then filter_central names cs = Inl KeyError
             else \<exists>r. filter_central names cs = Inr r"
    by simp_all
  from publisher_step [OF wf] IH show ?case
    by (auto split: if_splits)
qed

lemma datasets_equal_mappings:
  "\<exists>b. datasets_equal (JDict m) (JDict m') [] [] False = Inr (Equal b)"
  by (auto simp: datasets_equal_def default_fields_dataset_def field_values_def py_get_def)

lemma publisher_is_mapping_dict: "publisher_is_mapping d \<Longrightarrow> \<exists>m. d = JDict m"
  by (cases d) (simp_all add: publisher_is_mapping_def)

lemma scan_match_mappings:
  "\<forall>c\<in>set cs. publisher_is_mapping c \<Longrightarrow> publisher_is_mapping d \<Longrightarrow>
   \<exists>b. scan_match flip d cs = Inr b"
proof (induction cs)
  case Nil
  show ?case by (rule exI [of _ False]) simp
next
  case (Cons c cs)
  from Cons.prems(2) obtain m where d: "d = JDict m"
    using publisher_is_mapping_dict by blast
  from Cons.prems(1) obtain m' where c: "c = JDict m'"
    using publisher_is_mapping_dict [of c] by auto
  from Cons.IH Cons.prems obtain b where IH: "scan_match flip d cs = Inr b" by auto
  obtain b1 where b1: "datasets_equal (JDict m) (JDict m') [] [] False = Inr (Equal b1)"
    using datasets_equal_mappings by blast
  obtain b2 where b2: "datasets_equal (JDict m') (JDict m) [] [] False = Inr (Equal b2)"
    using datasets_equal_mappings by blast
  show ?case using d c IH b1 b2 by (cases flip) (auto simp: truthy_result_def)
qed

lemma title_landing_mapping: "publisher_is_mapping d \<Longrightarrow> \<exists>t. title_landing d = Inr t"
  by (cases d) (simp_all add: publisher_is_mapping_def title_landing_def py_get_def)

lemma forward_pass_mappings:
  "\<forall>d\<in>set ds. publisher_is_mapping d \<Longrightarrow> \<forall>c\<in>set cs. publisher_is_mapping c \<Longrightarrow>
   \<exists>st'. forward_pass (Inr cs) ds st = Inr st'"
proof (induction ds arbitrary: st)
  case Nil
  show ?case by (rule exI [of _ st]) simp
next
  case (Cons d ds)
  obtain fed nofed lfed lnofed where st: "st = (fed, nofed, lfed, lnofed)"
    using prod_cases4 by blast
  from Cons.prems obtain b where b: "scan_match False d cs = Inr b"
    using scan_match_mappings [of cs d False] by auto
  from Cons.prems obtain t where t: "title_landing d = Inr t"
    using title_landing_mapping [of d] by auto
  from Cons.prems have rest: "\<And>st. \<exists>st'. forward_pass (Inr cs) ds st = Inr st'"
    using Cons.IH by simp
  show ?case using st b t rest by simp
qed

text \<open>
  Claim C9. The pre-filter of pass 2 is not total. If some dataset of the local catalog or
  of the central catalog is a mapping without a \<open>publisher\<close> key, the filter raises and so
  does the whole reconciler; when the datasets otherwise follow the data model (each is a
  mapping whose \<open>publisher\<close>, if present, is a mapping) the exception is \<open>KeyError\<close>.
\<close>

theorem filter_raises_without_publisher:
  assumes ds: "py_seq (get_dataset catalog) = Inr ds"
    and cs: "py_seq (get_dataset central) = Inr cs"
    and lacks: "\<exists>d\<in>set ds \<union> set cs. lacks_publisher d"
  shows "(\<exists>e. filter_by_likely_publisher (get_dataset central) (get_dataset catalog) = Inl e)
       \<and> (\<exists>e. federation_indicators rnd catalog central = Inl e)
       \<and> ((\<forall>d\<in>set ds \<union> set cs. publisher_is_mapping d) \<longrightarrow>
            filter_by_likely_publisher (get_dataset central) (get_dataset catalog) = Inl KeyError
            \<and> federation_indicators rnd catalog central = Inl KeyError)"
proof -
  let ?flt = "filter_by_likely_publisher (get_dataset central) (get_dataset catalog)"
  have raises: "\<exists>e. ?flt = Inl e"
  proof (cases "\<exists>d\<in>set ds. lacks_publisher d")
    case True
    from publisher_names_raises [OF this] show ?thesis
      by (auto simp: filter_by_likely_publisher_def ds)
  next
    case False
    with lacks have "\<exists>c\<in>set cs. lacks_publisher c" by auto
    from filter_central_raises [OF this] show ?thesis
      by (auto simp: filter_by_likely_publisher_def ds cs split: sum.splits)
  qed
  then have fed_raises: "\<exists>e. federation_indicators rnd catalog central = Inl e"
    by (auto simp: federation_indicators_def ds cs split: sum.splits prod.splits)
  have key: "?flt = Inl KeyError \<and> federation_indicators rnd catalog central = Inl KeyError"
    if wf: "\<forall>d\<in>set ds \<union> set cs. publisher_is_mapping d"
  proof -
    from wf have wfd: "\<forall>d\<in>set ds. publisher_is_mapping d"
      and wfc: "\<forall>c\<in>set cs. publisher_is_mapping c" by auto
    have flt: "?flt = Inl KeyError"
    proof (cases "\<exists>d\<in>set ds. lacks_publisher d")
      case True
      with publisher_names_wf [OF wfd] show ?thesis
        by (simp add: filter_by_likely_publisher_def ds)
    next
      case False
      with publisher_names_wf [OF wfd] obtain ns where ns: "publisher_names ds = Inr ns"
        by auto
      from False lacks have "\<exists>c\<in>set cs. lacks_publisher c" by auto
      with filter_central_wf [OF wfc, of ns] have "filter_central ns cs = Inl KeyError"
        by simp
      with ns show ?thesis
        by (simp add: filter_by_likely_publisher_def ds cs)
    qed
    from forward_pass_mappings [OF wfd wfc] obtain st' where
      "forward_pass (Inr cs) ds (0, 0, [], []) = Inr st'" by blast
    with flt have "federation_indicators rnd catalog central = Inl KeyError"
      by (simp add: federation_indicators_def ds cs split: prod.splits)
    with flt show ?thesis by simp
  qed
  from raises fed_raises key show ?thesis by blast
qed

text \<open>The theorem at a local catalog whose only dataset has no publisher.\<close>

theorem filter_raises_without_publisher_witness:
  "py_seq (get_dataset local_no_publisher) = Inr [dataset_no_publisher]
   \<and> py_seq (get_dataset central_ab) = Inr [dataset_a, dataset_b]
   \<and> lacks_publisher dataset_no_publisher
   \<and> publisher_is_mapping dataset_no_publisher
   \<and> publisher_is_mapping dataset_a
   \<and> publisher_is_mapping dataset_b
   \<and> filter_by_likely_publisher (get_dataset central_ab) (get_dataset local_no_publisher) = Inl KeyError
   \<and> federation_indicators half_up local_no_publisher central_ab = Inl KeyError"
proof -
  have ds: "py_seq (get_dataset local_no_publisher) = Inr [dataset_no_publisher]" by code_simp
  have cs: "py_seq (get_dataset central_ab) = Inr [dataset_a, dataset_b]" by code_simp
  have l: "lacks_publisher dataset_no_publisher" by code_simp
  have w: "publisher_is_mapping dataset_no_publisher" "publisher_is_mapping dataset_a"
    "publisher_is_mapping dataset_b" by code_simp+
  from l have ex: "\<exists>d\<in>set [dataset_no_publisher] \<union> set [dataset_a, dataset_b]. lacks_publisher d"
    by simp
  from w have all: "\<forall>d\<in>set [dataset_no_publisher] \<union> set [dataset_a, dataset_b]. publisher_is_mapping d"
    by simp
  from filter_raises_without_publisher [OF ds cs ex] all ds cs l w show ?thesis by blast
qed

section \<open>Properties of the Bulk Removal Planner\<close>

text \<open>
  The pagination reads the pages at the offsets \<open>0, 500, 1000, ...\<close> in turn, stops at the
  first page whose reported count does not exceed the next offset, and accumulates the
  identifiers of all pages read. It ends when the reported counts are bounded.
\<close>

lemma search_loop_pages:
  assumes bounded: "\<forall>s. fst (package_search s) \<le> N"
  shows "\<exists>n\<ge>j.
      (\<forall>k. j \<le> k \<and> k < n \<longrightarrow> 500 * (k + 1) < fst (package_search (500 * k)))
    \<and> fst (package_search (500 * n)) \<le> 500 * (n + 1)
    \<and> search_loop package_search (package_search (500 * j)) (500 * (j + 1)) acc =
        Some (acc @ concat (map (\<lambda>k. snd (package_search (500 * k))) [j + 1 ..< n + 1]))"
proof (induction "N - 500 * (j + 1)" arbitrary: j acc rule: less_induct)
  case less
  show ?case
  proof (cases "500 * (j + 1) < fst (package_search (500 * j))")
    case False
    then have "search_loop package_search (package_search (500 * j)) (500 * (j + 1)) acc = Some acc"
      by (subst search_loop.simps) simp
    with False show ?thesis
      by (intro exI [of _ j]) simp
  next
    case True
    from bounded have "fst (package_search (500 * j)) \<le> N" by simp
    with True have "N - 500 * (Suc j + 1) < N - 500 * (j + 1)" by simp
    from less.hyps [OF this, of "acc @ snd (package_search (500 * Suc j))"] obtain n where
      n: "Suc j \<le> n"
      and before: "\<forall>k. Suc j \<le> k \<and> k < n \<longrightarrow> 500 * (k + 1) < fst (package_search (500 * k))"
      and stop: "fst (package_search (500 * n)) \<le> 500 * (n + 1)"
      and run: "search_loop package_search (package_search (500 * Suc j)) (500 * (Suc j + 1))
                  (acc @ snd (package_search (500 * Suc j))) =
                Some ((acc @ snd (package_search (500 * Suc j))) @
                      concat (map (\<lambda>k. snd (package_search (500 * k))) [Suc j + 1 ..< n + 1]))"
      by blast
    have step: "search_loop package_search (package_search (500 * j)) (500 * (j + 1)) acc =
        search_loop package_search (package_search (500 * Suc j)) (500 * (Suc j + 1))
          (acc @ snd (package_search (500 * Suc j)))"
      using True by (subst search_loop.simps) (simp add: algebra_simps)
    from n have upt: "[j + 1 ..< n + 1] = Suc j # [Suc j + 1 ..< n + 1]"
      by (simp add: upt_conv_Cons)
    have all: "\<forall>k. j \<le> k \<and> k < n \<longrightarrow> 500 * (k + 1) < fst (package_search (500 * k))"
    proof (intro allI impI)
      fix k assume k: "j \<le> k \<and> k < n"
      show "500 * (k + 1) < fst (package_search (500 * k))"
      proof (cases "k = j")
        case True
        with \<open>500 * (j + 1) < fst (package_search (500 * j))\<close> show ?thesis by simp
      next
        case False
        with k have "Suc j \<le> k \<and> k < n" by simp
        with before show ?thesis by blast
      qed
    qed
    from n have "j \<le> n" by simp
    moreover have "search_loop package_search (package_search (500 * j)) (500 * (j + 1)) acc =
        Some (acc @ concat (map (\<lambda>k. snd (package_search (500 * k))) [j + 1 ..< n + 1]))"
      by (simp only: step run upt) simp
    ultimately show ?thesis using all stop by blast
  qed
qed

lemma organization_identifiers_pages:
  assumes bounded: "\<forall>s. fst (package_search s) \<le> N"
  shows "\<exists>n.
      (\<forall>k<n. 500 * (k + 1) < fst (package_search (500 * k)))
    \<and> fst (package_search (500 * n)) \<le> 500 * (n + 1)
    \<and> organization_identifiers package_search =
        Some (concat (map (\<lambda>k. snd (package_search (500 * k))) [0 ..< n + 1]))"
proof -
  from search_loop_pages [OF bounded, of 0 "snd (package_search 0)"] obtain n where
    before: "\<forall>k. 0 \<le> k \<and> k < n \<longrightarrow> 500 * (k + 1) < fst (package_search (500 * k))"
    and stop: "fst (package_search (500 * n)) \<le> 500 * (n + 1)"
    and run: "search_loop package_search (package_search (500 * 0)) (500 * (0 + 1))
                (snd (package_search 0)) =
              Some (snd (package_search 0) @
                    concat (map (\<lambda>k. snd (package_search (500 * k))) [0 + 1 ..< n + 1]))"
    by blast
  have "[0 ..< n + 1] = 0 # [0 + 1 ..< n + 1]"
    by (simp add: upt_conv_Cons)
  then have "concat (map (\<lambda>k. snd (package_search (500 * k))) [0 ..< n + 1]) =
      snd (package_search 0) @ concat (map (\<lambda>k. snd (package_search (500 * k))) [0 + 1 ..< n + 1])"
    by (simp only: list.map concat.simps) simp
  with run have "organization_identifiers package_search =
      Some (concat (map (\<lambda>k. snd (package_search (500 * k))) [0 ..< n + 1]))"
    by (simp add: organization_identifiers_def)
  with before stop show ?thesis by auto
qed

text \<open>
  Claim C6. Let the registry's reported count be bounded (so the pagination ends). Then
  the planner returns. With an organization given, the organization source is the
  registry's answer to the query \<open>organization:"<name>"\<close> read in pages of 500 at the
  offsets \<open>0, 500, ...\<close> up to the first page whose reported count is exhausted; the
  purged identifiers are, as a set, the intersection of the filter source with it when a
  catalog-content filter is active too (each purged once), and exactly its identifiers
  otherwise. Without an organization the purged identifiers are those of the filter
  source when a catalog-content filter is active, and there is no purge call when no
  filter at all is given.
\<close>

theorem purge_set_by_sources:
  assumes bounded: "\<forall>q s. fst (package_search q s) \<le> N"
  shows "\<exists>purged.
      remove_datasets_from_ckan get_datasets package_search filter_in filter_out only_time_series
        organization = Some purged
    \<and> (\<forall>org. organization = Some org \<and> org \<noteq> [] \<longrightarrow>
         (\<exists>n.
            (\<forall>k<n. 500 * (k + 1) < fst (package_search (''organization:\"'' @ org @ ''\"'') (500 * k)))
          \<and> fst (package_search (''organization:\"'' @ org @ ''\"'') (500 * n)) \<le> 500 * (n + 1)
          \<and> (truthy filter_in \<or> truthy filter_out \<or> only_time_series \<longrightarrow>
                set purged =
                  set (get_datasets filter_in filter_out only_time_series)
                  \<inter> set (concat (map (\<lambda>k. snd (package_search (''organization:\"'' @ org @ ''\"'')
                                                   (500 * k))) [0 ..< n + 1]))
                \<and> distinct purged)
          \<and> (\<not> (truthy filter_in \<or> truthy filter_out \<or> only_time_series) \<longrightarrow>
                purged =
                  concat (map (\<lambda>k. snd (package_search (''organization:\"'' @ org @ ''\"'')
                                          (500 * k))) [0 ..< n + 1]))))
    \<and> (organization = None \<or> organization = Some [] \<longrightarrow>
         (truthy filter_in \<or> truthy filter_out \<or> only_time_series \<longrightarrow>
            purged = get_datasets filter_in filter_out only_time_series)
       \<and> (\<not> (truthy filter_in \<or> truthy filter_out \<or> only_time_series) \<longrightarrow> purged = []))"
proof (cases "organization = None \<or> organization = Some []")
  case True
  then show ?thesis
    unfolding remove_datasets_from_ckan_def datajson_filters_def
    by (auto simp: Let_def)
next
  case False
  then obtain org where org: "organization = Some org" "org \<noteq> []"
    by auto
  let ?q = "''organization:\"'' @ org @ ''\"''"
  from bounded have "\<forall>s. fst (package_search ?q s) \<le> N"
    by simp
  from organization_identifiers_pages [OF this] obtain n where
    before: "\<forall>k<n. 500 * (k + 1) < fst (package_search ?q (500 * k))"
    and stop: "fst (package_search ?q (500 * n)) \<le> 500 * (n + 1)"
    and ids: "organization_identifiers (package_search ?q) =
        Some (concat (map (\<lambda>k. snd (package_search ?q (500 * k))) [0 ..< n + 1]))"
    by blast
  let ?org_ids = "concat (map (\<lambda>k. snd (package_search ?q (500 * k))) [0 ..< n + 1])"
  show ?thesis
  proof (cases "truthy filter_in \<or> truthy filter_out \<or> only_time_series")
    case True
    let ?purged = "remdups (filter (\<lambda>i. i \<in> set ?org_ids)
                      (get_datasets filter_in filter_out only_time_series))"
    have run: "remove_datasets_from_ckan get_datasets package_search filter_in filter_out
        only_time_series organization = Some ?purged"
      using org ids True
      unfolding remove_datasets_from_ckan_def datajson_filters_def
      by (simp add: Let_def)
    have "set ?purged = set (get_datasets filter_in filter_out only_time_series) \<inter> set ?org_ids"
      by auto
    moreover have "distinct ?purged" by simp
    ultimately show ?thesis using run org before stop True by blast
  next
    case False
    have run: "remove_datasets_from_ckan get_datasets package_search filter_in filter_out
        only_time_series organization = Some ?org_ids"
      using org ids False
      unfolding remove_datasets_from_ckan_def datajson_filters_def
      by (simp add: Let_def)
    show ?thesis using run org before stop False by blast
  qed
qed

text \<open>
  The theorem at a registry that reports 1001 datasets of \<open>some_org\<close> and serves them in
  three pages, at the offsets 0, 500 and 1000, while the filter source finds the datasets
  of the second and third page and one more: the second and third are purged. Without a
  filter all three pages are purged.
\<close>

theorem purge_set_by_sources_witness:
  "remove_datasets_from_ckan filter_finds_239 registry_three_pages (JDict [(''dataset'', JNull)])
     JNull False (Some ''some_org'') = Some [''id_2'', ''id_3'']
   \<and> remove_datasets_from_ckan filter_finds_239 registry_three_pages JNull JNull False
       (Some ''some_org'') = Some [''id_1'', ''id_2'', ''id_3'']
   \<and> map (\<lambda>k. registry_three_pages ''organization:\"some_org\"'' (500 * k)) [0 ..< 3] =
       [(1001, [''id_1'']), (1001, [''id_2'']), (1001, [''id_3''])]
   \<and> set [''id_2'', ''id_3''] =
       set (filter_finds_239 (JDict [(''dataset'', JNull)]) JNull False)
       \<inter> set (concat (map (\<lambda>k. snd (registry_three_pages ''organization:\"some_org\"'' (500 * k)))
                         [0 ..< 2 + 1]))"
proof -
  let ?q = "''organization:\"'' @ ''some_org'' @ ''\"''"
  have b: "\<forall>q s. fst (registry_three_pages q s) \<le> 1001"
    by (simp add: registry_three_pages_def)
  have run: "remove_datasets_from_ckan filter_finds_239 registry_three_pages
      (JDict [(''dataset'', JNull)]) JNull False (Some ''some_org'') = Some [''id_2'', ''id_3'']"
    by code_simp
  have run_org: "remove_datasets_from_ckan filter_finds_239 registry_three_pages JNull JNull False
       (Some ''some_org'') = Some [''id_1'', ''id_2'', ''id_3'']"
    by code_simp
  have pages: "map (\<lambda>k. registry_three_pages ''organization:\"some_org\"'' (500 * k)) [0 ..< 3] =
       [(1001, [''id_1'']), (1001, [''id_2'']), (1001, [''id_3''])]"
    by code_simp
  have count: "fst (registry_three_pages ''organization:\"some_org\"'' s) = 1001" for s
    by (simp add: registry_three_pages_def)
  have f: "truthy (JDict [(''dataset'', JNull)])" by (simp add: truthy_def)
  from purge_set_by_sources [OF b, where filter_in = "JDict [(''dataset'', JNull)]"
      and filter_out = JNull and only_time_series = False and organization = "Some ''some_org''"
      and get_datasets = filter_finds_239] run f
  obtain n where
    before: "\<forall>k<n. 500 * (k + 1) < fst (registry_three_pages ?q (500 * k))"
    and stop: "fst (registry_three_pages ?q (500 * n)) \<le> 500 * (n + 1)"
    and inter: "set [''id_2'', ''id_3''] =
       set (filter_finds_239 (JDict [(''dataset'', JNull)]) JNull False)
       \<inter> set (concat (map (\<lambda>k. snd (registry_three_pages ?q (500 * k))) [0 ..< n + 1]))"
    by auto
  from stop have "2 \<le> n" using count [of "500 * n"] by simp
  moreover have "n \<le> 2"
  proof (rule ccontr)
    assume "\<not> n \<le> 2"
    then have "2 < n" by simp
    with before have "500 * (2 + 1) < fst (registry_three_pages ?q (500 * 2))" by blast
    then show False using count [of "500 * 2"] by simp
  qed
  ultimately have "n = 2" by simp
  with inter have "set [''id_2'', ''id_3''] =
       set (filter_finds_239 (JDict [(''dataset'', JNull)]) JNull False)
       \<inter> set (concat (map (\<lambda>k. snd (registry_three_pages ''organization:\"some_org\"'' (500 * k)))
                         [0 ..< 2 + 1]))"
    by simp
  with run run_org pages show ?thesis by blast
qed

section \<open>Properties of the Field Usage Counter\<close>

lemma totals_add_assoc: "totals_add (totals_add a b) c = totals_add a (totals_add b c)"
  by (cases a; cases b; cases c) (simp add: totals_add_def)

lemma totals_add_zero: "totals_add (0, 0, 0) t = t"
  by (cases t) (simp add: totals_add_def)

lemma totals_zero_count: "totals zero_count = (0, 0, 0)"
  by (simp add: totals_def zero_count_def)

lemma totals_add_count: "totals (add_count a b) = totals_add (totals a) (totals b)"
  by (simp add: totals_def add_count_def totals_add_def)

lemma totals_count_leaf:
  "totals (count_leaf v present c) = totals_add (totals c) (totals (count_leaf v False zero_count))"
  by (cases v) (simp_all add: totals_def count_leaf_def totals_add_def zero_count_def)

lemma same_shape_mappings: "same_shape r1 r2 fs \<Longrightarrow> is_mapping r1 \<and> is_mapping r2"
proof (induction fs)
  case Nil
  then show ?case by simp
next
  case (Cons a fs)
  obtain k s where a: "a = (k, s)" by (cases a)
  show ?case
  proof (cases s)
    case (Leaf v)
    with Cons a show ?thesis by simp
  next
    case (Nested v)
    with Cons a show ?thesis by (auto split: sum.splits)
  qed
qed

lemma py_contains_mapping: "is_mapping r \<Longrightarrow> \<exists>present. py_contains r k = Inr present"
  by (cases r) (simp_all add: is_mapping_def py_contains_def)

lemma same_shape_totals:
  "same_shape r1 r2 fs \<Longrightarrow>
     \<exists>c1 c2 t. fields_loop r1 fs k1 = Inr c1 \<and> fields_loop r2 fs k2 = Inr c2
       \<and> totals c1 = totals_add (totals k1) t \<and> totals c2 = totals_add (totals k2) t"
  "same_shape_list es1 es2 v \<Longrightarrow>
     \<exists>c1 c2 t. elements_loop es1 v k1 = Inr c1 \<and> elements_loop es2 v k2 = Inr c2
       \<and> totals c1 = totals_add (totals k1) t \<and> totals c2 = totals_add (totals k2) t"
proof (induction r1 r2 fs and es1 es2 v arbitrary: k1 k2 and k1 k2
    rule: same_shape_same_shape_list.induct)
  case (1 r1 r2)
  have z: "totals k1 = totals_add (totals k1) (0, 0, 0)" "totals k2 = totals_add (totals k2) (0, 0, 0)"
    by (simp_all add: totals_add_def split: prod.splits)
  have "fields_loop r1 [] k1 = Inr k1" "fields_loop r2 [] k2 = Inr k2" by simp_all
  with z show ?case by blast
next
  case (2 r1 r2 k v fs)
  from "2.prems" obtain v1 v2 where
    g1: "py_get r1 k = Inr v1" and g2: "py_get r2 k = Inr v2"
    and sl: "same_shape_list (elements_of v1) (elements_of v2) v"
    and ss: "same_shape r1 r2 fs"
    by (auto split: sum.splits)
  from "2.IH"(1) [OF refl g1 g2 sl, of k1 k2] obtain c1 c2 t where
    e1: "elements_loop (elements_of v1) v k1 = Inr c1"
    and e2: "elements_loop (elements_of v2) v k2 = Inr c2"
    and t1: "totals c1 = totals_add (totals k1) t" and t2: "totals c2 = totals_add (totals k2) t"
    by auto
  from "2.IH"(2) [OF refl g1 g2 ss, of c1 c2] obtain d1 d2 u where
    f1: "fields_loop r1 fs c1 = Inr d1" and f2: "fields_loop r2 fs c2 = Inr d2"
    and u1: "totals d1 = totals_add (totals c1) u" and u2: "totals d2 = totals_add (totals c2) u"
    by auto
  have T: "totals d1 = totals_add (totals k1) (totals_add t u)"
    "totals d2 = totals_add (totals k2) (totals_add t u)"
    using t1 t2 u1 u2 by (simp_all add: totals_add_assoc)
  have "fields_loop r1 ((k, Nested v) # fs) k1 = Inr d1"
    "fields_loop r2 ((k, Nested v) # fs) k2 = Inr d2"
    using g1 g2 e1 e2 f1 f2 by simp_all
  with T show ?case by blast
next
  case (3 r1 r2 k v fs)
  from "3.prems" have ss: "same_shape r1 r2 fs" by simp
  from same_shape_mappings [OF ss] obtain p1 p2 where
    p1: "py_contains r1 k = Inr p1" and p2: "py_contains r2 k = Inr p2"
    using py_contains_mapping by blast
  from "3.IH" [OF ss, of "count_leaf v p1 k1" "count_leaf v p2 k2"] obtain d1 d2 u where
    f1: "fields_loop r1 fs (count_leaf v p1 k1) = Inr d1"
    and f2: "fields_loop r2 fs (count_leaf v p2 k2) = Inr d2"
    and u1: "totals d1 = totals_add (totals (count_leaf v p1 k1)) u"
    and u2: "totals d2 = totals_add (totals (count_leaf v p2 k2)) u"
    by auto
  let ?l = "totals (count_leaf v False zero_count)"
  have T: "totals d1 = totals_add (totals k1) (totals_add ?l u)"
    "totals d2 = totals_add (totals k2) (totals_add ?l u)"
    using u1 u2 totals_count_leaf [of v p1 k1] totals_count_leaf [of v p2 k2]
    by (simp_all add: totals_add_assoc)
  have "fields_loop r1 ((k, Leaf v) # fs) k1 = Inr d1"
    "fields_loop r2 ((k, Leaf v) # fs) k2 = Inr d2"
    using p1 p2 f1 f2 by simp_all
  with T show ?case by blast
next
  case (4 v)
  have z: "totals k1 = totals_add (totals k1) (0, 0, 0)" "totals k2 = totals_add (totals k2) (0, 0, 0)"
    by (simp_all add: totals_add_def split: prod.splits)
  have "elements_loop [] v k1 = Inr k1" "elements_loop [] v k2 = Inr k2" by simp_all
  with z show ?case by blast
next
  case (5 e1 es1 e2 es2 v)
  from "5.prems" have s: "same_shape e1 e2 v" and sl: "same_shape_list es1 es2 v" by simp_all
  from "5.IH"(1) [OF s, of zero_count zero_count] obtain r1 r2 where
    f1: "fields_loop e1 v zero_count = Inr r1" and f2: "fields_loop e2 v zero_count = Inr r2"
    and t2: "totals r2 = totals r1"
    by (auto simp: totals_zero_count totals_add_zero)
  define t where "t = totals r1"
  with t2 have t1: "totals r1 = t" and t2: "totals r2 = t" by simp_all
  from "5.IH"(2) [OF sl, of "add_count k1 r1" "add_count k2 r2"] obtain d1 d2 u where
    g1: "elements_loop es1 v (add_count k1 r1) = Inr d1"
    and g2: "elements_loop es2 v (add_count k2 r2) = Inr d2"
    and u1: "totals d1 = totals_add (totals (add_count k1 r1)) u"
    and u2: "totals d2 = totals_add (totals (add_count k2 r2)) u"
    by auto
  have T: "totals d1 = totals_add (totals k1) (totals_add t u)"
    "totals d2 = totals_add (totals k2) (totals_add t u)"
    using u1 u2 t1 t2 by (simp_all add: totals_add_count totals_add_assoc)
  have "elements_loop (e1 # es1) v k1 = Inr d1" "elements_loop (e2 # es2) v k2 = Inr d2"
    using f1 f2 g1 g2 by simp_all
  with T show ?case by blast
next
  case (6 e2 es2 v)
  then show ?case by simp
next
  case (7 e1 es1 v)
  then show ?case by simp
qed

text \<open>
  Claim C2, as the code has it. If two records have the same shape under the schema
  (both are mappings and, at every nested schema key, they resolve to the same number of
  elements, recursively; a mapping, a missing key and a wrongly typed value each resolve
  to one element, a sequence to its elements), the counter returns on both and gives the
  same \<open>total_requerido\<close>, \<open>total_recomendado\<close> and \<open>total_optativo\<close>, whatever leaf keys
  the records hold.
\<close>

theorem totals_depend_on_shape:
  assumes "same_shape r1 r2 fs"
  shows "\<exists>c1 c2. count_fields_recursive r1 fs = Inr c1 \<and> count_fields_recursive r2 fs = Inr c2
           \<and> total_requerido c1 = total_requerido c2
           \<and> total_recomendado c1 = total_recomendado c2
           \<and> total_optativo c1 = total_optativo c2"
proof -
  from same_shape_totals(1) [OF assms, of zero_count zero_count] obtain c1 c2 where
    "fields_loop r1 fs zero_count = Inr c1" "fields_loop r2 fs zero_count = Inr c2"
    "totals c1 = totals c2"
    by (auto simp: totals_zero_count totals_add_zero)
  then show ?thesis
    by (auto simp: count_fields_recursive_def totals_def)
qed

text \<open>
  The theorem at a filled-in record and a sparse one with a wrongly typed publisher: the
  totals of both are 2 required, 1 recommended and 1 optional field.
\<close>

theorem totals_depend_on_shape_witness:
  "same_shape record_filled record_sparse sample_schema
   \<and> map_sum id totals (count_fields_recursive record_filled sample_schema) = Inr (2, 1, 1)
   \<and> map_sum id totals (count_fields_recursive record_sparse sample_schema) = Inr (2, 1, 1)"
proof -
  have s: "same_shape record_filled record_sparse sample_schema" by code_simp
  have f: "map_sum id totals (count_fields_recursive record_filled sample_schema) = Inr (2, 1, 1)"
    by code_simp
  from totals_depend_on_shape [OF s] obtain c1 c2 where
    c: "count_fields_recursive record_filled sample_schema = Inr c1"
       "count_fields_recursive record_sparse sample_schema = Inr c2"
    and "totals c1 = totals c2"
    by (auto simp: totals_def)
  with f have "map_sum id totals (count_fields_recursive record_sparse sample_schema) = Inr (2, 1, 1)"
    by simp
  with s f show ?thesis by blast
qed

text \<open>
  The claim as first stated fails where a nested schema key resolves to a sequence: the
  totals are added once per element. Under the same schema a record with no dataset gets
  1 required field in total and a record with two datasets gets 3.
\<close>

theorem totals_depend_on_record_counterexample:
  "map_sum id totals (count_fields_recursive record_no_dataset sample_schema) = Inr (1, 1, 0)
   \<and> map_sum id totals (count_fields_recursive record_two_datasets sample_schema) = Inr (3, 1, 2)"
  by code_simp

section \<open>The Freshness Evaluator at two catalogs\<close>

text \<open>
  Claim C3 says that \<open>datasets_actualizados_pct\<close> is \<open>actualizados\<close> divided by the number of
  datasets that have an \<open>accrualPeriodicity\<close>, times 100, rounded to two decimals. The code
  divides by the number of all datasets and rounds before it multiplies by 100. For the
  catalog with an \<open>eventual\<close> dataset, a yearly dataset without \<open>modified\<close> and a dataset
  without periodicity it counts 1 updated and 1 outdated dataset and reports 33, where the
  claim gives \<open>1 / 2 * 100 = 50\<close>.
\<close>

theorem actualizados_pct_over_all_datasets:
  "map_sum id
     (\<lambda>r. (datasets_actualizados_cant r, datasets_desactualizados_cant r, datasets_actualizados_pct r))
     (generate_date_indicators half_up today_only yearly (1 / 5) catalog_three_periodicities)
   = Inr (1, 1, 33)"
  by code_simp

text \<open>
  Claim C5 says that \<open>catalogo_ultima_actualizacion_dias\<close> is \<open>None\<close> exactly when no date
  can be resolved, and in particular is not \<open>None\<close> for a catalog updated today. The code
  tests the day count for truth, and 0 is false: for the catalog whose \<open>modified\<close> date is
  today (0 days ago) the indicator is \<open>None\<close>.
\<close>

theorem days_since_update_none_today:
  "today_only (JStr ''2026-11-04'') = Some 0
   \<and> days_from_last_update today_only catalog_modified_today ''modified'' = Inr None
   \<and> map_sum id catalogo_ultima_actualizacion_dias
         (generate_date_indicators half_up today_only yearly (1 / 5) catalog_modified_today) = Inr None"
  by code_simp

section \<open>Properties of the network fold\<close>




























section \<open>Denominators of the percentages\<close>
















end
